theory Spec2Isabelle
  imports Complex_Main
begin

section \<open>Data model shared by the components\<close>

text \<open>
  The names, types and sources of the components are only compared with each other and
  with ASCII literals; they are lists of characters. (The request handler reads its
  strings with a regular expression and has a string type of its own below.) The
  components receive their entities and relationships from parsed JSON.
  The interfaces declare every field a string, but both components guard the
  discriminator fields with \<^verbatim>\<open>|| "unknown"\<close>, so \<open>type\<close> and \<open>source\<close> are
  optional here: \<open>None\<close> is a field that is absent or null.
\<close>

record entity =
  e_type :: "string option"
  e_name :: string
  e_source :: "string option"

record relationship =
  r_from :: string
  r_to :: string
  r_type :: "string option"

subsection \<open>The JavaScript Map, in insertion order\<close>

text \<open>
  A \<^verbatim>\<open>Map\<close> iterates in insertion order, and \<^verbatim>\<open>set\<close> on a key that is present
  replaces the value where it stands. An association list read from the front does the
  same.
\<close>

type_synonym ('k, 'v) jsmap = "('k \<times> 'v) list"

definition map_has :: "('k, 'v) jsmap \<Rightarrow> 'k \<Rightarrow> bool" where
  "map_has m k = (map_of m k \<noteq> None)"

definition map_get :: "('k, 'v) jsmap \<Rightarrow> 'k \<Rightarrow> 'v option" where
  "map_get m k = map_of m k"

fun map_set :: "('k, 'v) jsmap \<Rightarrow> 'k \<Rightarrow> 'v \<Rightarrow> ('k, 'v) jsmap" where
  "map_set [] k v = [(k, v)]"
| "map_set ((k', v') # m) k v = (if k' = k then (k, v) # m else (k', v') # map_set m k v)"

definition map_values :: "('k, 'v) jsmap \<Rightarrow> 'v list" where
  "map_values m = map snd m"

definition map_entries :: "('k, 'v) jsmap \<Rightarrow> ('k \<times> 'v) list" where
  "map_entries m = m"

section \<open>NetworkGraph.tsx: graphData\<close>

record node =
  n_id :: string
  n_name :: string
  n_type :: "string option"
  n_source :: "string option"
  n_group :: nat

record link =
  l_source :: string
  l_target :: string
  l_type :: "string option"

record graph =
  nodes :: "node list"
  links :: "link list"

definition group_of :: "string option \<Rightarrow> nat" where
  "group_of t = (if t = Some ''company'' then 1 else if t = Some ''officer'' then 2 else 3)"

definition entity_node :: "entity \<Rightarrow> node" where
  "entity_node e =
     \<lparr>n_id = e_name e, n_name = e_name e, n_type = e_type e, n_source = e_source e,
      n_group = group_of (e_type e)\<rparr>"

text \<open>The body of \<^verbatim>\<open>entities.forEach\<close>: only a name not yet in the map is stored.\<close>

definition add_entity :: "(string, node) jsmap \<Rightarrow> entity \<Rightarrow> (string, node) jsmap" where
  "add_entity m e =
     (if \<not> map_has m (e_name e) then map_set m (e_name e) (entity_node e) else m)"

definition to_link :: "relationship \<Rightarrow> link" where
  "to_link rel = \<lparr>l_source = r_from rel, l_target = r_to rel, l_type = r_type rel\<rparr>"

definition placeholder :: "string \<Rightarrow> node" where
  "placeholder x =
     \<lparr>n_id = x, n_name = x, n_type = Some ''unknown'', n_source = Some ''unknown'',
      n_group = 0\<rparr>"

definition add_endpoint :: "(string, node) jsmap \<Rightarrow> string \<Rightarrow> (string, node) jsmap" where
  "add_endpoint m x = (if \<not> map_has m x then map_set m x (placeholder x) else m)"

text \<open>The body of \<^verbatim>\<open>links.forEach\<close>: first the source, then the target.\<close>

definition add_link :: "(string, node) jsmap \<Rightarrow> link \<Rightarrow> (string, node) jsmap" where
  "add_link m l = add_endpoint (add_endpoint m (l_source l)) (l_target l)"

definition nodesMap :: "entity list \<Rightarrow> relationship list \<Rightarrow> (string, node) jsmap" where
  "nodesMap entities relationships =
     foldl add_link (foldl add_entity [] entities) (map to_link relationships)"

definition graphData :: "entity list \<Rightarrow> relationship list \<Rightarrow> graph" where
  "graphData entities relationships =
     \<lparr>nodes = map_values (nodesMap entities relationships),
      links = map to_link relationships\<rparr>"

text \<open>
  Reading a graph back as input: a node is read through the fields an entity has, a
  link through its endpoints and type.
\<close>

definition node_entity :: "node \<Rightarrow> entity" where
  "node_entity n = \<lparr>e_type = n_type n, e_name = n_name n, e_source = n_source n\<rparr>"

definition link_relationship :: "link \<Rightarrow> relationship" where
  "link_relationship l = \<lparr>r_from = l_source l, r_to = l_target l, r_type = l_type l\<rparr>"

text \<open>
  The invariant of the node map: keys are distinct, and every node is stored under its
  own name, which is also its id.
\<close>

definition keyed :: "(string, node) jsmap \<Rightarrow> bool" where
  "keyed m = (distinct (map fst m) \<and> (\<forall>(k, n) \<in> set m. n_id n = k \<and> n_name n = k))"

section \<open>EntityTypeChart.tsx: the three groupings\<close>

text \<open>
  An element of a chart's data array, \<^verbatim>\<open>{ name, value }\<close>. A count is a natural number:
  it never exceeds the length of the input array, far below the range where a
  JavaScript number stops being exact.
\<close>

record datum =
  d_name :: string
  d_value :: nat

text \<open>
  \<^verbatim>\<open>x || "unknown"\<close> on a string field: an absent, null or empty value is falsy.
\<close>

definition or_unknown :: "string option \<Rightarrow> string" where
  "or_unknown v = (case v of None \<Rightarrow> ''unknown'' | Some s \<Rightarrow> if s = [] then ''unknown'' else s)"

text \<open>
  \<^verbatim>\<open>typeMap.get(type) || 0\<close>: an absent key reads as undefined, and 0 is falsy too.
\<close>

definition or_zero :: "nat option \<Rightarrow> nat" where
  "or_zero c = (case c of None \<Rightarrow> 0 | Some n \<Rightarrow> if n = 0 then 0 else n)"

text \<open>
  The body of each \<^verbatim>\<open>forEach\<close>, given the discriminator already read.
\<close>

definition count_in :: "(string, nat) jsmap \<Rightarrow> string \<Rightarrow> (string, nat) jsmap" where
  "count_in m key = map_set m key (or_zero (map_get m key) + 1)"

text \<open>
  \<^verbatim>\<open>Array.prototype.sort\<close> with a comparator. The language specifies the sort as stable
  (ECMAScript 2019 and later), and the result of a stable sort under a consistent
  comparator is unique, so the stable insertion sort below computes it: an element is
  placed before the first later element that the comparator does not put ahead of it.
\<close>

fun insert_by :: "('a \<Rightarrow> 'a \<Rightarrow> int) \<Rightarrow> 'a \<Rightarrow> 'a list \<Rightarrow> 'a list" where
  "insert_by cmp x [] = [x]"
| "insert_by cmp x (y # ys) = (if cmp x y \<le> 0 then x # y # ys else y # insert_by cmp x ys)"

definition sort_by :: "('a \<Rightarrow> 'a \<Rightarrow> int) \<Rightarrow> 'a list \<Rightarrow> 'a list" where
  "sort_by cmp xs = foldr (insert_by cmp) xs []"

text \<open>
  The comparator \<^verbatim>\<open>(a, b) => b.value - a.value\<close>.
\<close>

definition by_value_desc :: "datum \<Rightarrow> datum \<Rightarrow> int" where
  "by_value_desc a b = int (d_value b) - int (d_value a)"

text \<open>
  \<^verbatim>\<open>([name, value]) => ({ name, value })\<close>.
\<close>

definition to_datum :: "string \<times> nat \<Rightarrow> datum" where
  "to_datum entry = (case entry of (name, value) \<Rightarrow> \<lparr>d_name = name, d_value = value\<rparr>)"

definition entityTypeData :: "entity list \<Rightarrow> datum list" where
  "entityTypeData entities =
     (let typeMap = foldl (\<lambda>typeMap entity. count_in typeMap (or_unknown (e_type entity))) [] entities
      in sort_by by_value_desc (map to_datum (map_entries typeMap)))"

definition relationshipTypeData :: "relationship list \<Rightarrow> datum list" where
  "relationshipTypeData relationships =
     (let typeMap = foldl (\<lambda>typeMap rel. count_in typeMap (or_unknown (r_type rel))) [] relationships
      in sort_by by_value_desc (map to_datum (map_entries typeMap)))"

definition sourceData :: "entity list \<Rightarrow> datum list" where
  "sourceData entities =
     (let sourceMap = foldl (\<lambda>sourceMap entity. count_in sourceMap (or_unknown (e_source entity))) [] entities
      in sort_by by_value_desc (map to_datum (map_entries sourceMap)))"

text \<open>
  The position at which a discriminator is first seen in the list of discriminators read
  from the input (the length of the list if it never occurs).
\<close>

definition first_seen :: "string list \<Rightarrow> string \<Rightarrow> nat" where
  "first_seen keys k = length (takeWhile (\<lambda>x. x \<noteq> k) keys)"

text \<open>
  The ranking the charts are drawn in: the larger count first, and among equal counts
  the discriminator seen first.
\<close>

definition ranked_before :: "string list \<Rightarrow> datum \<Rightarrow> datum \<Rightarrow> bool" where
  "ranked_before keys a b \<longleftrightarrow>
     d_value b < d_value a \<or>
     (d_value a = d_value b \<and> first_seen keys (d_name a) < first_seen keys (d_name b))"

text \<open>
  The three groupings differ only in the field they read; \<open>tally\<close> is their common
  shape, over the discriminators already read.
\<close>

definition tally :: "string list \<Rightarrow> datum list" where
  "tally keys = sort_by by_value_desc (map to_datum (foldl count_in [] keys))"

text \<open>
  Modelled from the spec: the \<open>summary\<close> object of the result. It is computed by the
  backend analysis script, which is not among the sources (the pages only display
  \<^verbatim>\<open>result.summary.total_entities\<close> and \<^verbatim>\<open>result.summary.total_relationships\<close>).
  The spec states \<^verbatim>\<open>summary.total_entities == len(entities)\<close> and
  \<^verbatim>\<open>summary.total_relationships == len(relationships)\<close>.
\<close>

record summary =
  total_entities :: nat
  total_relationships :: nat

definition summarize :: "entity list \<Rightarrow> relationship list \<Rightarrow> summary" where
  "summarize entities relationships =
     \<lparr>total_entities = length entities, total_relationships = length relationships\<rparr>"


section \<open>app/api/analyze/route.ts: POST\<close>

text \<open>
  The handler exists twice, in \<^verbatim>\<open>src/app/api/analyze/route.ts\<close> (\<open>POST\<close>) and in
  \<^verbatim>\<open>frontend/app/api/analyze/route.ts\<close> (\<open>POST_frontend\<close>). Both read the request, run
  the analysis script as a subprocess and read the file its output names. Everything
  outside the handler is a field of the environment \<open>env\<close>; calls to \<^verbatim>\<open>console.error\<close>
  change no response and are left out.

  A string of the handler is the list of its UTF-16 code units, which is what a regular
  expression without the \<^verbatim>\<open>u\<close> flag reads. \<open>units\<close> gives the code units of an ASCII
  literal.
\<close>

type_synonym ustring = "nat list"

definition units :: "string \<Rightarrow> ustring" where
  "units s = map of_char s"

text \<open>
  A parsed JSON value. A number is given by its value, which is all the handler looks at
  (whether it is zero). An object lists the properties it was parsed with, one entry per
  name, as the parser leaves them.
\<close>

datatype json =
    JNull
  | JBool bool
  | JNum real
  | JStr ustring
  | JArr "json list"
  | JObj "(ustring \<times> json) list"

text \<open>
  A JavaScript value read from the body: \<open>None\<close> is \<^verbatim>\<open>undefined\<close>.
\<close>

type_synonym jsvalue = "json option"

text \<open>
  Truthiness, as \<^verbatim>\<open>!company\<close> and \<^verbatim>\<open>if (website)\<close> test it: undefined, null, false, 0
  and the empty string are falsy, every array and object is truthy.
\<close>

fun truthy :: "jsvalue \<Rightarrow> bool" where
  "truthy None = False"
| "truthy (Some JNull) = False"
| "truthy (Some (JBool b)) = b"
| "truthy (Some (JNum x)) = (x \<noteq> 0)"
| "truthy (Some (JStr s)) = (s \<noteq> [])"
| "truthy (Some (JArr xs)) = True"
| "truthy (Some (JObj fs)) = True"

text \<open>
  The property \<open>k\<close> of the body, for the four names the handler reads: an object
  has the properties it was parsed with, and no other JSON value has a property of one
  of these names.
\<close>

definition body_field :: "json \<Rightarrow> string \<Rightarrow> jsvalue" where
  "body_field body k = (case body of JObj fs \<Rightarrow> map_of fs (units k) | _ \<Rightarrow> None)"

text \<open>
  What a \<^verbatim>\<open>catch\<close> block can receive: an \<^verbatim>\<open>Error\<close> with its message and, where it
  has one, its \<^verbatim>\<open>stderr\<close> property (the errors of \<^verbatim>\<open>child_process.exec\<close> do), or any
  other value, given by its string form.
\<close>

datatype thrown = ErrorObj ustring "ustring option" | NonError ustring

record fields =
  company :: jsvalue
  country :: jsvalue
  website :: jsvalue
  officer :: jsvalue

text \<open>
  \<^verbatim>\<open>const { company, country, website, officer } = body\<close>. Destructuring null throws a
  TypeError (the message is the engine's); any other JSON value can be destructured.
\<close>

definition destructure_null_message :: ustring where
  "destructure_null_message =
     units ''Cannot destructure property 'company' of 'body' as it is null.''"

definition destructure :: "json \<Rightarrow> thrown + fields" where
  "destructure body =
     (case body of
        JNull \<Rightarrow> Inl (ErrorObj destructure_null_message None)
      | _ \<Rightarrow> Inr \<lparr>company = body_field body ''company'', country = body_field body ''country'',
                  website = body_field body ''website'', officer = body_field body ''officer''\<rparr>)"

text \<open>
  The effects a request has outside the handler, in the order they happen.
\<close>

datatype effect = Exec ustring | ReadFile ustring

text \<open>
  The environment of one request: the outcome of \<^verbatim>\<open>request.json()\<close>,
  \<^verbatim>\<open>process.cwd()\<close>, the outcome of converting a value that is not a string to a string
  inside a template literal (the text, or the TypeError thrown for a value with no
  usable \<^verbatim>\<open>toString\<close>, such as the parsed object \<^verbatim>\<open>{"toString": null}\<close>), the outcome of
  \<^verbatim>\<open>execAsync(command)\<close> (rejected, or stdout and stderr), \<^verbatim>\<open>path.join\<close>, and the
  outcome of reading and parsing a file.
\<close>

record env =
  request_json :: "thrown + json"
  cwd :: ustring
  to_text :: "json \<Rightarrow> thrown + ustring"
  exec :: "ustring \<Rightarrow> thrown + ustring \<times> ustring"
  path_join :: "ustring list \<Rightarrow> ustring"
  read_json :: "ustring \<Rightarrow> thrown + json"

text \<open>
  A response: the HTTP status and the fields of the JSON body. A field that is absent
  or \<^verbatim>\<open>undefined\<close> is \<open>None\<close>; \<^verbatim>\<open>NextResponse.json\<close> without a status answers 200.
\<close>

record response =
  status :: nat
  b_success :: "bool option"
  b_error :: "ustring option"
  b_data :: "json option"
  b_output :: "ustring option"
  b_stderr :: "ustring option"
  b_warning :: "ustring option"
  b_details :: "ustring option"

definition json_response :: "nat \<Rightarrow> response" where
  "json_response code =
     \<lparr>status = code, b_success = None, b_error = None, b_data = None, b_output = None,
      b_stderr = None, b_warning = None, b_details = None\<rparr>"

text \<open>
  The four messages of the handlers are Japanese literals; each constant lists the code
  units of its literal. In English they read: "company name and country are required",
  "failed to read the result file", "the result file was not found; check the output",
  and "an error occurred during the analysis".
\<close>

definition required_message :: ustring where
  "required_message =
     [0x4F01, 0x696D, 0x540D, 0x3068, 0x56FD, 0x306F, 0x5FC5, 0x9808, 0x3067, 0x3059]"

definition read_failed_message :: ustring where
  "read_failed_message =
     [0x7D50, 0x679C, 0x30D5, 0x30A1, 0x30A4, 0x30EB, 0x306E, 0x8AAD, 0x307F, 0x8FBC, 0x307F,
      0x306B, 0x5931, 0x6557, 0x3057, 0x307E, 0x3057, 0x305F]"

definition not_found_message :: ustring where
  "not_found_message =
     [0x7D50, 0x679C, 0x30D5, 0x30A1, 0x30A4, 0x30EB, 0x304C, 0x898B, 0x3064, 0x304B, 0x308A,
      0x307E, 0x305B, 0x3093, 0x3067, 0x3057, 0x305F, 0x3002, 0x51FA, 0x529B, 0x3092, 0x78BA,
      0x8A8D, 0x3057, 0x3066, 0x304F, 0x3060, 0x3055, 0x3044, 0x3002]"

definition analysis_error_message :: ustring where
  "analysis_error_message =
     [0x5206, 0x6790, 0x4E2D, 0x306B, 0x30A8, 0x30E9, 0x30FC, 0x304C, 0x767A, 0x751F, 0x3057,
      0x307E, 0x3057, 0x305F]"

definition bad_request :: response where
  "bad_request = (json_response 400)\<lparr>b_error := Some required_message\<rparr>"

text \<open>
  The outer \<^verbatim>\<open>catch\<close> block of both handlers.
\<close>

definition catch_error :: "thrown \<Rightarrow> response" where
  "catch_error e =
     (let errorMessage = (case e of ErrorObj message _ \<Rightarrow> message | NonError _ \<Rightarrow> analysis_error_message);
          errorDetails = (case e of ErrorObj _ err \<Rightarrow> err | NonError _ \<Rightarrow> None)
      in (json_response 500)\<lparr>b_success := Some False, b_error := Some errorMessage,
            b_details := errorDetails\<rparr>)"

text \<open>
  \<^verbatim>\<open>${v}\<close> in a template literal: a string stands for itself, any other value goes
  through the conversion, which can throw. \<open>quoted\<close> is \<^verbatim>\<open>"${v}"\<close>.
\<close>

definition template :: "env \<Rightarrow> jsvalue \<Rightarrow> thrown + ustring" where
  "template e v =
     (case v of Some (JStr s) \<Rightarrow> Inr s | Some j \<Rightarrow> to_text e j | None \<Rightarrow> Inr (units ''undefined''))"

definition quoted :: "ustring \<Rightarrow> ustring" where
  "quoted s = units [CHR 0x22] @ s @ units [CHR 0x22]"

text \<open>
  \<^verbatim>\<open>if (website) { command += ` --website "${website}"` }\<close>, and the same for the
  officer: the flag is appended when the value is truthy.
\<close>

definition append_option :: "env \<Rightarrow> string \<Rightarrow> jsvalue \<Rightarrow> ustring \<Rightarrow> thrown + ustring" where
  "append_option e flag v command =
     (if truthy v
      then (case template e v of
              Inl err \<Rightarrow> Inl err
            | Inr s \<Rightarrow> Inr (command @ units flag @ quoted s))
      else Inr command)"

text \<open>
  The command line. The template literal converts the company, then the country; the
  two optional flags follow. The first conversion that throws ends the construction.
\<close>

definition command_of :: "env \<Rightarrow> ustring \<Rightarrow> string \<Rightarrow> fields \<Rightarrow> thrown + ustring" where
  "command_of e projectRoot script f =
     (case template e (company f) of
        Inl err \<Rightarrow> Inl err
      | Inr companyText \<Rightarrow>
          (case template e (country f) of
             Inl err \<Rightarrow> Inl err
           | Inr countryText \<Rightarrow>
               (case append_option e '' --website '' (website f)
                       (units ''cd '' @ quoted projectRoot @ units '' && uv run python '' @
                        units script @ units '' --company '' @ quoted companyText @
                        units '' --country '' @ countryText) of
                  Inl err \<Rightarrow> Inl err
                | Inr command \<Rightarrow> append_option e '' --officer '' (officer f) command)))"

text \<open>
  \<^verbatim>\<open>stdout.match(/data\/output\/([^\s]+\.json)/)\<close>, returning the captured group.
  \<^verbatim>\<open>\s\<close> is the white space and the line terminators of the language: U+0009 to U+000D,
  U+0020, U+00A0, U+1680, U+2000 to U+200A, U+2028, U+2029, U+202F, U+205F, U+3000 and
  U+FEFF. The engine tries the start positions from the left; at a position, after the
  literal prefix, the greedy group takes the longest stretch without white space and
  gives code units back until \<^verbatim>\<open>.json\<close> follows it, so the capture is the longest prefix
  of that stretch that ends in \<^verbatim>\<open>.json\<close> and has a code unit before it.
\<close>

definition is_space :: "nat \<Rightarrow> bool" where
  "is_space u \<longleftrightarrow>
     u \<in> set [0x0009, 0x000A, 0x000B, 0x000C, 0x000D, 0x0020, 0x00A0, 0x1680, 0x2000, 0x2001,
              0x2002, 0x2003, 0x2004, 0x2005, 0x2006, 0x2007, 0x2008, 0x2009, 0x200A, 0x2028,
              0x2029, 0x202F, 0x205F, 0x3000, 0xFEFF]"

definition capture :: "ustring \<Rightarrow> ustring option" where
  "capture rest =
     (let run = takeWhile (\<lambda>u. \<not> is_space u) rest
      in find (\<lambda>p. drop (length p - 5) p = units ''.json'')
           (map (\<lambda>n. take n run) (rev [6..<Suc (length run)])))"

fun output_match :: "ustring \<Rightarrow> ustring option" where
  "output_match [] = None"
| "output_match (u # us) =
     (if take 12 (u # us) = units ''data/output/''
      then (case capture (drop 12 (u # us)) of Some p \<Rightarrow> Some p | None \<Rightarrow> output_match us)
      else output_match us)"

text \<open>
  \<^verbatim>\<open>stderr || undefined\<close>, and the text of a caught value
  (\<^verbatim>\<open>fileError instanceof Error ? fileError.message : String(fileError)\<close>).
\<close>

definition or_undefined :: "ustring \<Rightarrow> ustring option" where
  "or_undefined s = (if s = [] then None else Some s)"

definition thrown_text :: "thrown \<Rightarrow> ustring" where
  "thrown_text e = (case e of ErrorObj message _ \<Rightarrow> message | NonError s \<Rightarrow> s)"

definition POST :: "env \<Rightarrow> response \<times> effect list" where
  "POST e =
     (case request_json e of
        Inl err \<Rightarrow> (catch_error err, [])
      | Inr body \<Rightarrow>
          (case destructure body of
             Inl err \<Rightarrow> (catch_error err, [])
           | Inr f \<Rightarrow>
               if \<not> truthy (company f) \<or> \<not> truthy (country f) then (bad_request, [])
               else
                 let projectRoot = cwd e
                 in (case command_of e projectRoot ''src/backend/integrated_analysis.py'' f of
                       Inl err \<Rightarrow> (catch_error err, [])
                     | Inr command \<Rightarrow>
                 (case exec e command of
                       Inl err \<Rightarrow> (catch_error err, [Exec command])
                     | Inr (stdout, stderr_text) \<Rightarrow>
                         (case output_match stdout of
                            Some file \<Rightarrow>
                              let jsonPath = path_join e [projectRoot, units ''data'', units ''output'', file]
                              in (case read_json e jsonPath of
                                    Inr analysisResult \<Rightarrow>
                                      ((json_response 200)\<lparr>b_success := Some True,
                                          b_data := Some analysisResult, b_output := Some stdout,
                                          b_stderr := or_undefined stderr_text\<rparr>,
                                       [Exec command, ReadFile jsonPath])
                                  | Inl fileError \<Rightarrow>
                                      ((json_response 200)\<lparr>b_success := Some False,
                                          b_error := Some read_failed_message,
                                          b_output := Some stdout,
                                          b_stderr := or_undefined stderr_text,
                                          b_details := Some (thrown_text fileError)\<rparr>,
                                       [Exec command, ReadFile jsonPath]))
                          | None \<Rightarrow>
                              ((json_response 200)\<lparr>b_success := Some True, b_data := Some JNull,
                                  b_output := Some stdout, b_stderr := or_undefined stderr_text,
                                  b_warning := Some not_found_message\<rparr>,
                               [Exec command]))))))"

definition POST_frontend :: "env \<Rightarrow> response \<times> effect list" where
  "POST_frontend e =
     (case request_json e of
        Inl err \<Rightarrow> (catch_error err, [])
      | Inr body \<Rightarrow>
          (case destructure body of
             Inl err \<Rightarrow> (catch_error err, [])
           | Inr f \<Rightarrow>
               if \<not> truthy (company f) \<or> \<not> truthy (country f) then (bad_request, [])
               else
                 let projectRoot = path_join e [cwd e, units ''..'']
                 in (case command_of e projectRoot ''scripts/integrated_analysis.py'' f of
                       Inl err \<Rightarrow> (catch_error err, [])
                     | Inr command \<Rightarrow>
                 (case exec e command of
                       Inl err \<Rightarrow> (catch_error err, [Exec command])
                     | Inr (stdout, stderr_text) \<Rightarrow>
                         (case output_match stdout of
                            Some file \<Rightarrow>
                              let jsonPath = path_join e [projectRoot, units ''data'', units ''output'', file]
                              in (case read_json e jsonPath of
                                    Inr analysisResult \<Rightarrow>
                                      ((json_response 200)\<lparr>b_success := Some True,
                                          b_data := Some analysisResult, b_output := Some stdout\<rparr>,
                                       [Exec command, ReadFile jsonPath])
                                  | Inl err \<Rightarrow>
                                      (catch_error err, [Exec command, ReadFile jsonPath]))
                          | None \<Rightarrow>
                              ((json_response 200)\<lparr>b_success := Some True, b_data := Some JNull,
                                  b_output := Some stdout, b_error := Some stderr_text\<rparr>,
                               [Exec command]))))))"


section \<open>Example inputs\<close>

definition acme_entities :: "entity list" where
  "acme_entities =
     [\<lparr>e_type = Some ''company'', e_name = ''Acme Inc.'', e_source = Some ''A''\<rparr>,
      \<lparr>e_type = Some ''company'', e_name = ''acme inc'', e_source = Some ''B''\<rparr>]"

definition same_name_entities :: "entity list" where
  "same_name_entities =
     [\<lparr>e_type = Some ''company'', e_name = ''Acme Inc.'', e_source = Some ''A''\<rparr>,
      \<lparr>e_type = Some ''officer'', e_name = ''Acme Inc.'', e_source = Some ''B''\<rparr>]"

definition a_to_b :: relationship where
  "a_to_b = \<lparr>r_from = ''A'', r_to = ''B'', r_type = Some ''x''\<rparr>"

definition acme_only :: "entity list" where
  "acme_only = [\<lparr>e_type = Some ''company'', e_name = ''Acme Inc.'', e_source = Some ''A''\<rparr>]"

definition acme_jane :: relationship where
  "acme_jane = \<lparr>r_from = ''Acme Inc.'', r_to = ''Jane Doe'', r_type = Some ''officer_of''\<rparr>"

definition sample_entities :: "entity list" where
  "sample_entities =
     [\<lparr>e_type = Some ''officer'', e_name = ''Jane Doe'', e_source = Some ''sugartrail''\<rparr>,
      \<lparr>e_type = Some ''company'', e_name = ''Acme Inc.'', e_source = Some ''EDGAR''\<rparr>,
      \<lparr>e_type = None, e_name = ''1 Main St'', e_source = Some []\<rparr>,
      \<lparr>e_type = Some ''company'', e_name = ''Acme Ltd'', e_source = Some ''sugartrail''\<rparr>,
      \<lparr>e_type = Some [], e_name = ''PO Box 1'', e_source = None\<rparr>]"

definition sample_relationships :: "relationship list" where
  "sample_relationships =
     [\<lparr>r_from = ''Jane Doe'', r_to = ''Acme Inc.'', r_type = Some ''officer_of''\<rparr>,
      \<lparr>r_from = ''Acme Inc.'', r_to = ''1 Main St'', r_type = None\<rparr>,
      \<lparr>r_from = ''Jane Doe'', r_to = ''Acme Ltd'', r_type = Some ''officer_of''\<rparr>]"


text \<open>
  An environment for a given body and a given outcome of the subprocess. An object with
  a \<open>toString\<close> property of its own cannot be converted to a string in it, and no
  result file can be read.
\<close>

definition example_env :: "json \<Rightarrow> (thrown + ustring \<times> ustring) \<Rightarrow> env" where
  "example_env body outcome =
     \<lparr>request_json = Inr body, cwd = units ''/app'',
      to_text = (\<lambda>j. case j of
                   JObj fs \<Rightarrow> if map_of fs (units ''toString'') = None
                             then Inr (units ''[object Object]'')
                             else Inl (ErrorObj (units ''Cannot convert object to primitive value'') None)
                 | _ \<Rightarrow> Inr (units ''text'')),
      exec = (\<lambda>command. outcome),
      path_join = (\<lambda>parts. foldr (\<lambda>p rest. if rest = [] then p else p @ units ''/'' @ rest) parts []),
      read_json = (\<lambda>path. Inl (ErrorObj (units ''ENOENT: no such file or directory'') None))\<rparr>"

definition acme_us :: json where
  "acme_us = JObj [(units ''company'', JStr (units ''Acme'')), (units ''country'', JStr (units ''us''))]"

definition only_country :: json where
  "only_country = JObj [(units ''company'', JStr []), (units ''country'', JStr (units ''us''))]"

definition poisoned :: json where
  "poisoned =
     JObj [(units ''company'', JObj [(units ''toString'', JNull)]),
           (units ''country'', JStr (units ''us''))]"

definition acme_us_command :: ustring where
  "acme_us_command =
     units ''cd '' @ quoted (units ''/app'') @
     units '' && uv run python src/backend/integrated_analysis.py --company '' @
     quoted (units ''Acme'') @ units '' --country us''"


section \<open>Properties of graphData\<close>

lemma map_has_iff: "map_has m k \<longleftrightarrow> k \<in> fst ` set m"
  by (simp add: map_has_def map_of_eq_None_iff)

lemma map_set_absent: "k \<notin> fst ` set m \<Longrightarrow> map_set m k v = m @ [(k, v)]"
  by (induction m) auto

lemma add_entity_eq:
  "add_entity m e = (if e_name e \<in> fst ` set m then m else m @ [(e_name e, entity_node e)])"
  by (simp add: add_entity_def map_has_iff map_set_absent)

lemma add_endpoint_eq:
  "add_endpoint m x = (if x \<in> fst ` set m then m else m @ [(x, placeholder x)])"
  by (simp add: add_endpoint_def map_has_iff map_set_absent)

lemma keyed_Nil: "keyed []"
  by (simp add: keyed_def)

lemma keyed_add_entity: "keyed m \<Longrightarrow> keyed (add_entity m e)"
  by (auto simp: keyed_def add_entity_eq entity_node_def)

lemma keyed_add_endpoint: "keyed m \<Longrightarrow> keyed (add_endpoint m x)"
  by (auto simp: keyed_def add_endpoint_eq placeholder_def)

lemma keyed_add_link: "keyed m \<Longrightarrow> keyed (add_link m l)"
  by (simp add: add_link_def keyed_add_endpoint)

lemma keyed_foldl_entity: "keyed m \<Longrightarrow> keyed (foldl add_entity m es)"
  by (induction es arbitrary: m) (simp_all add: keyed_add_entity)

lemma keyed_foldl_link: "keyed m \<Longrightarrow> keyed (foldl add_link m ls)"
  by (induction ls arbitrary: m) (simp_all add: keyed_add_link)

lemma keyed_nodesMap: "keyed (nodesMap es rs)"
  by (simp add: nodesMap_def keyed_foldl_link keyed_foldl_entity keyed_Nil)

lemma map_of_snoc:
  "map_of (m @ [(k, v)]) x =
     (case map_of m x of Some w \<Rightarrow> Some w | None \<Rightarrow> if k = x then Some v else None)"
  by (induction m) auto

lemma map_of_add_entity:
  "map_of (add_entity m e) x =
     (case map_of m x of Some v \<Rightarrow> Some v
      | None \<Rightarrow> if e_name e = x then Some (entity_node e) else None)"
  by (auto simp: add_entity_def map_has_def map_set_absent map_of_snoc map_of_eq_None_iff
      simp del: map_of_append split: option.splits)

lemma map_of_foldl_entity:
  "map_of (foldl add_entity m es) x =
     (case map_of m x of Some v \<Rightarrow> Some v
      | None \<Rightarrow> map_option entity_node (find (\<lambda>e. e_name e = x) es))"
  by (induction es arbitrary: m) (auto simp: map_of_add_entity split: option.splits)

lemma map_of_add_endpoint:
  "map_of (add_endpoint m y) x =
     (case map_of m x of Some v \<Rightarrow> Some v
      | None \<Rightarrow> if y = x then Some (placeholder x) else None)"
  by (auto simp: add_endpoint_def map_has_def map_set_absent map_of_snoc map_of_eq_None_iff
      simp del: map_of_append split: option.splits)

lemma map_of_add_link:
  "map_of (add_link m l) x =
     (case map_of m x of Some v \<Rightarrow> Some v
      | None \<Rightarrow> if x = l_source l \<or> x = l_target l then Some (placeholder x) else None)"
  by (auto simp: add_link_def map_of_add_endpoint split: option.splits)

lemma map_of_foldl_link:
  "map_of (foldl add_link m ls) x =
     (case map_of m x of Some v \<Rightarrow> Some v
      | None \<Rightarrow> if x \<in> l_source ` set ls \<union> l_target ` set ls
                then Some (placeholder x) else None)"
  by (induction ls arbitrary: m) (auto simp: map_of_add_link split: option.splits)

lemma map_of_nodesMap:
  "map_of (nodesMap es rs) x =
     (case find (\<lambda>e. e_name e = x) es of Some e \<Rightarrow> Some (entity_node e)
      | None \<Rightarrow> if x \<in> r_from ` set rs \<union> r_to ` set rs
                then Some (placeholder x) else None)"
  by (auto simp: nodesMap_def map_of_foldl_link map_of_foldl_entity to_link_def image_iff
      split: option.splits)

lemma keyed_filter_name:
  "keyed m \<Longrightarrow> filter (\<lambda>n. n_name n = x) (map snd m) =
     (case map_of m x of None \<Rightarrow> [] | Some v \<Rightarrow> [v])"
proof (induction m)
  case Nil
  then show ?case by simp
next
  case (Cons p m)
  obtain k v where p: "p = (k, v)" by (cases p)
  from Cons.prems have km: "keyed m" and kv: "n_name v = k" and nk: "k \<notin> fst ` set m"
    by (auto simp: keyed_def p)
  show ?case
  proof (cases "k = x")
    case True
    with nk have "map_of m x = None" by (simp add: map_of_eq_None_iff)
    with Cons.IH [OF km] True kv show ?thesis by (simp add: p)
  next
    case False
    with Cons.IH [OF km] kv show ?thesis by (simp add: p)
  qed
qed

lemma keyed_mem:
  assumes "keyed m"
  shows "n \<in> set (map snd m) \<longleftrightarrow> map_of m (n_name n) = Some n"
proof
  assume "n \<in> set (map snd m)"
  then obtain k' where in_m: "(k', n) \<in> set m" by auto
  with assms have "k' = n_name n" by (auto simp: keyed_def)
  with in_m assms show "map_of m (n_name n) = Some n" by (simp add: keyed_def)
next
  assume "map_of m (n_name n) = Some n"
  then have "(n_name n, n) \<in> set m" by (rule map_of_SomeD)
  then show "n \<in> set (map snd m)" by force
qed

lemma nodes_filter_name:
  "filter (\<lambda>n. n_name n = x) (nodes (graphData es rs)) =
     (case find (\<lambda>e. e_name e = x) es of Some e \<Rightarrow> [entity_node e]
      | None \<Rightarrow> if x \<in> r_from ` set rs \<union> r_to ` set rs then [placeholder x] else [])"
  by (simp add: graphData_def map_values_def keyed_filter_name [OF keyed_nodesMap]
      map_of_nodesMap split: option.splits)

lemma nodes_mem:
  "n \<in> set (nodes (graphData es rs)) \<longleftrightarrow>
     (case find (\<lambda>e. e_name e = n_name n) es of Some e \<Rightarrow> n = entity_node e
      | None \<Rightarrow> n_name n \<in> r_from ` set rs \<union> r_to ` set rs \<and> n = placeholder (n_name n))"
proof -
  have "nodes (graphData es rs) = map snd (nodesMap es rs)"
    by (simp add: graphData_def map_values_def)
  then have "n \<in> set (nodes (graphData es rs)) \<longleftrightarrow>
      map_of (nodesMap es rs) (n_name n) = Some n"
    using keyed_mem [OF keyed_nodesMap, of n es rs] by simp
  then show ?thesis
    by (auto simp: map_of_nodesMap split: option.splits)
qed

lemma find_first:
  "\<forall>y \<in> set xs. \<not> P y \<Longrightarrow> P e \<Longrightarrow> find P (xs @ e # ys) = Some e"
  by (induction xs) auto

lemma find_SomeD: "find P xs = Some x \<Longrightarrow> x \<in> set xs \<and> P x"
  by (induction xs) (auto split: if_splits)

lemma foldl_add_entity_fresh:
  "distinct (map e_name es) \<Longrightarrow> e_name ` set es \<inter> fst ` set m = {} \<Longrightarrow>
     foldl add_entity m es = m @ map (\<lambda>e. (e_name e, entity_node e)) es"
proof (induction es arbitrary: m)
  case Nil
  then show ?case by simp
next
  case (Cons e es)
  from Cons.prems have fresh: "e_name e \<notin> fst ` set m" by auto
  then have step: "add_entity m e = m @ [(e_name e, entity_node e)]"
    by (simp add: add_entity_eq)
  from Cons.prems have "e_name ` set es \<inter> fst ` set (m @ [(e_name e, entity_node e)]) = {}"
    by auto
  with Cons.IH [of "m @ [(e_name e, entity_node e)]"] Cons.prems step show ?case
    by simp
qed

lemma foldl_add_link_present:
  "\<forall>l \<in> set ls. l_source l \<in> fst ` set m \<and> l_target l \<in> fst ` set m \<Longrightarrow>
     foldl add_link m ls = m"
  by (induction ls) (simp_all add: add_link_def add_endpoint_eq)

lemma keys_nodesMap:
  "fst ` set (nodesMap es rs) = e_name ` set es \<union> r_from ` set rs \<union> r_to ` set rs"
proof -
  have "x \<in> fst ` set (nodesMap es rs) \<longleftrightarrow>
      x \<in> e_name ` set es \<union> r_from ` set rs \<union> r_to ` set rs" for x
  proof -
    have "x \<in> fst ` set (nodesMap es rs) \<longleftrightarrow> map_of (nodesMap es rs) x \<noteq> None"
      by (simp add: map_of_eq_None_iff)
    also have "\<dots> \<longleftrightarrow> x \<in> e_name ` set es \<union> r_from ` set rs \<union> r_to ` set rs"
      by (auto simp: map_of_nodesMap find_None_iff image_iff split: option.splits
          dest: find_SomeD)
    finally show ?thesis .
  qed
  then show ?thesis by blast
qed

lemma keyed_names: "keyed m \<Longrightarrow> map n_name (map snd m) = map fst m"
  by (induction m) (auto simp: keyed_def)

lemma keyed_reenter:
  "keyed m \<Longrightarrow> map (\<lambda>e. (e_name e, entity_node e)) (map node_entity (map snd m)) =
     map (\<lambda>(k, n). (k, n\<lparr>n_group := group_of (n_type n)\<rparr>)) m"
  by (induction m) (auto simp: keyed_def node_entity_def entity_node_def)

lemma to_link_roundtrip: "map to_link (map link_relationship ls) = ls"
  by (induction ls) (simp_all add: to_link_def link_relationship_def)

lemma endpoint_has_node:
  assumes "x \<in> r_from ` set rs \<union> r_to ` set rs"
  shows "\<exists>n \<in> set (nodes (graphData es rs)). n_id n = x \<and> n_name n = x"
proof (cases "find (\<lambda>e. e_name e = x) es")
  case None
  with assms have "placeholder x \<in> set (nodes (graphData es rs))"
    by (simp add: nodes_mem placeholder_def)
  then show ?thesis
    by (rule bexI [rotated]) (simp add: placeholder_def)
next
  case (Some e)
  then have "e_name e = x" by (auto dest: find_SomeD)
  with Some have "entity_node e \<in> set (nodes (graphData es rs))"
    by (simp add: nodes_mem entity_node_def)
  then show ?thesis
    by (rule bexI [rotated]) (simp add: entity_node_def \<open>e_name e = x\<close>)
qed

text \<open>
  Claim C1, as amended. The node map is keyed by the exact name, with no normalization
  of case, whitespace or legal suffix. For any two input entities with the same name
  string the node list holds exactly one node for that name, and its type and source are
  those of one contributing entity: a single source, not a union.
\<close>

theorem graphData_one_node_per_name:
  assumes "a \<in> set es" and "b \<in> set es" and "e_name a = e_name b"
  shows "\<exists>n. filter (\<lambda>n. n_name n = e_name a \<or> n_name n = e_name b) (nodes (graphData es rs)) = [n]
           \<and> n_name n = e_name a
           \<and> (\<exists>e \<in> set es. e_name e = e_name a \<and> n_type n = e_type e \<and> n_source n = e_source e)"
proof -
  from assms(1) have "find (\<lambda>e. e_name e = e_name a) es \<noteq> None"
    by (auto simp: find_None_iff)
  then obtain e where e: "find (\<lambda>e. e_name e = e_name a) es = Some e"
    by blast
  then have "e \<in> set es" and "e_name e = e_name a"
    by (auto dest: find_SomeD)
  moreover have "filter (\<lambda>n. n_name n = e_name a \<or> n_name n = e_name b) (nodes (graphData es rs))
      = [entity_node e]"
    using e assms(3) by (simp add: nodes_filter_name)
  ultimately show ?thesis
    by (auto simp: entity_node_def)
qed

text \<open>
  C1, witness: two entities named \<open>Acme Inc.\<close> from sources A and B.
\<close>

theorem graphData_one_node_per_name_witness:
  "\<exists>n. filter (\<lambda>n. n_name n = ''Acme Inc.'') (nodes (graphData same_name_entities [])) = [n]
      \<and> n_name n = ''Acme Inc.''
      \<and> (\<exists>e \<in> set same_name_entities.
            e_name e = ''Acme Inc.'' \<and> n_type n = e_type e \<and> n_source n = e_source e)"
  using graphData_one_node_per_name [of "same_name_entities ! 0" same_name_entities
      "same_name_entities ! 1" "[]"]
  by (simp add: same_name_entities_def)

text \<open>
  C1, counterexample: \<open>Acme Inc.\<close> from A and \<open>acme inc\<close> from B stay two nodes, each with
  its own single source.
\<close>

theorem graphData_names_not_normalized:
  "nodes (graphData acme_entities []) =
     [\<lparr>n_id = ''Acme Inc.'', n_name = ''Acme Inc.'', n_type = Some ''company'',
       n_source = Some ''A'', n_group = 1\<rparr>,
      \<lparr>n_id = ''acme inc'', n_name = ''acme inc'', n_type = Some ''company'',
       n_source = Some ''B'', n_group = 1\<rparr>]"
  by (simp add: acme_entities_def graphData_def nodesMap_def map_values_def add_entity_def
      map_has_def entity_node_def group_of_def)

text \<open>
  Claim C2, as amended. The link list is the relationship list mapped one to one, in
  order: nothing is removed, so it is free of repeated (from, to, type) triples exactly
  when the input is.
\<close>

theorem graphData_links_follow_input:
  "links (graphData es rs) =
     map (\<lambda>r. \<lparr>l_source = r_from r, l_target = r_to r, l_type = r_type r\<rparr>) rs \<and>
   length (links (graphData es rs)) = length rs \<and>
   distinct (links (graphData es rs)) = distinct rs"
proof -
  have "inj to_link"
    by (rule injI) (simp add: to_link_def relationship.equality)
  then have "distinct (map to_link rs) = distinct rs"
    by (simp add: distinct_map inj_on_def)
  then show ?thesis
    by (simp add: graphData_def to_link_def [abs_def])
qed

text \<open>
  C2, counterexample: the same relationship submitted twice gives two equal links.
\<close>

theorem graphData_duplicate_links_kept:
  "links (graphData [] [a_to_b, a_to_b]) =
     [\<lparr>l_source = ''A'', l_target = ''B'', l_type = Some ''x''\<rparr>,
      \<lparr>l_source = ''A'', l_target = ''B'', l_type = Some ''x''\<rparr>]"
  by (simp add: graphData_def to_link_def a_to_b_def)

text \<open>
  Claim C3. Every link of the graph has a node for its source and a node for its target,
  and an endpoint that names no entity is present as the placeholder node of type and
  source \<open>unknown\<close>.
\<close>

theorem graphData_edge_closed:
  "(\<forall>l \<in> set (links (graphData es rs)).
      (\<exists>n \<in> set (nodes (graphData es rs)). n_id n = l_source l \<and> n_name n = l_source l) \<and>
      (\<exists>n \<in> set (nodes (graphData es rs)). n_id n = l_target l \<and> n_name n = l_target l)) \<and>
   (\<forall>r \<in> set rs. \<forall>x \<in> {r_from r, r_to r}. x \<notin> e_name ` set es \<longrightarrow>
      \<lparr>n_id = x, n_name = x, n_type = Some ''unknown'', n_source = Some ''unknown'',
       n_group = 0\<rparr> \<in> set (nodes (graphData es rs)))"
proof (intro conjI ballI impI)
  fix l assume "l \<in> set (links (graphData es rs))"
  then obtain r where r: "r \<in> set rs" and l: "l = to_link r"
    by (auto simp: graphData_def)
  from r have "r_from r \<in> r_from ` set rs \<union> r_to ` set rs" by simp
  then show "\<exists>n \<in> set (nodes (graphData es rs)). n_id n = l_source l \<and> n_name n = l_source l"
    using endpoint_has_node [of "r_from r" rs es] by (simp add: l to_link_def)
  from r have "r_to r \<in> r_from ` set rs \<union> r_to ` set rs" by simp
  then show "\<exists>n \<in> set (nodes (graphData es rs)). n_id n = l_target l \<and> n_name n = l_target l"
    using endpoint_has_node [of "r_to r" rs es] by (simp add: l to_link_def)
next
  fix r x assume r: "r \<in> set rs" and x: "x \<in> {r_from r, r_to r}" and new: "x \<notin> e_name ` set es"
  from new have "find (\<lambda>e. e_name e = x) es = None"
    by (auto simp: find_None_iff)
  moreover from r x have "x \<in> r_from ` set rs \<union> r_to ` set rs" by auto
  ultimately have "placeholder x \<in> set (nodes (graphData es rs))"
    by (simp add: nodes_mem placeholder_def)
  then show "\<lparr>n_id = x, n_name = x, n_type = Some ''unknown'', n_source = Some ''unknown'',
       n_group = 0\<rparr> \<in> set (nodes (graphData es rs))"
    by (simp add: placeholder_def)
qed

text \<open>
  C3, witness: \<open>Acme Inc.\<close> is an entity, \<open>Jane Doe\<close> is not.
\<close>

theorem graphData_edge_closed_witness:
  "(\<exists>n \<in> set (nodes (graphData acme_only [acme_jane])). n_id n = ''Acme Inc.'' \<and> n_name n = ''Acme Inc.'') \<and>
   \<lparr>n_id = ''Jane Doe'', n_name = ''Jane Doe'', n_type = Some ''unknown'',
     n_source = Some ''unknown'', n_group = 0\<rparr> \<in> set (nodes (graphData acme_only [acme_jane]))"
  using graphData_edge_closed [of acme_only "[acme_jane]"]
  by (simp add: acme_only_def acme_jane_def graphData_def to_link_def)

text \<open>
  Claim C6. The node of a name is built from the first entity with that name: whatever
  follows it in the list, the one node of that name has the first entity's name, type
  and source.
\<close>

theorem graphData_first_entity_wins:
  assumes "\<forall>e' \<in> set before. e_name e' \<noteq> e_name e"
  shows "filter (\<lambda>n. n_name n = e_name e) (nodes (graphData (before @ e # later) rs)) =
           [\<lparr>n_id = e_name e, n_name = e_name e, n_type = e_type e, n_source = e_source e,
             n_group = group_of (e_type e)\<rparr>]"
proof -
  from assms have "find (\<lambda>y. e_name y = e_name e) (before @ e # later) = Some e"
    by (intro find_first) auto
  then show ?thesis
    by (simp add: nodes_filter_name entity_node_def)
qed

text \<open>
  C6, witness: after an entity of another name, the first \<open>Acme Inc.\<close> (a company from
  A) gives the node; the second (an officer from B) leaves it as it is.
\<close>

theorem graphData_first_entity_wins_witness:
  "filter (\<lambda>n. n_name n = ''Acme Inc.'')
     (nodes (graphData
        ([\<lparr>e_type = Some ''officer'', e_name = ''Jane Doe'', e_source = Some ''C''\<rparr>] @
         \<lparr>e_type = Some ''company'', e_name = ''Acme Inc.'', e_source = Some ''A''\<rparr> #
         [\<lparr>e_type = Some ''officer'', e_name = ''Acme Inc.'', e_source = Some ''B''\<rparr>])
        [acme_jane])) =
     [\<lparr>n_id = ''Acme Inc.'', n_name = ''Acme Inc.'', n_type = Some ''company'',
       n_source = Some ''A'', n_group = 1\<rparr>]"
  using graphData_first_entity_wins
    [of "[\<lparr>e_type = Some ''officer'', e_name = ''Jane Doe'', e_source = Some ''C''\<rparr>]"
      "\<lparr>e_type = Some ''company'', e_name = ''Acme Inc.'', e_source = Some ''A''\<rparr>"
      "[\<lparr>e_type = Some ''officer'', e_name = ''Acme Inc.'', e_source = Some ''B''\<rparr>]"
      "[acme_jane]"]
  by (simp add: group_of_def)

text \<open>
  Claim C7, as amended. Assembling the graph again from its own output gives the same
  links and the same nodes in the same order, up to the group field: the group is
  computed again from the type, which turns a placeholder's group 0 into 3.
\<close>

theorem graphData_rerun:
  "graphData (map node_entity (nodes (graphData es rs)))
       (map link_relationship (links (graphData es rs))) =
     \<lparr>nodes = map (\<lambda>n. n\<lparr>n_group := group_of (n_type n)\<rparr>) (nodes (graphData es rs)),
      links = links (graphData es rs)\<rparr>"
proof -
  define m where "m = nodesMap es rs"
  define ls where "ls = map to_link rs"
  define es' where "es' = map node_entity (map snd m)"
  define m' where "m' = map (\<lambda>(k, n). (k, n\<lparr>n_group := group_of (n_type n)\<rparr>)) m"
  have g: "nodes (graphData es rs) = map snd m" "links (graphData es rs) = ls"
    by (simp_all add: graphData_def map_values_def m_def ls_def)
  have km: "keyed m" by (simp add: m_def keyed_nodesMap)
  have names: "map e_name es' = map fst m"
    using keyed_names [OF km] by (simp add: es'_def node_entity_def comp_def)
  have "distinct (map e_name es')"
    using km by (simp add: names keyed_def)
  then have "foldl add_entity [] es' = map (\<lambda>e. (e_name e, entity_node e)) es'"
    using foldl_add_entity_fresh [of es' "[]"] by simp
  then have first: "foldl add_entity [] es' = m'"
    using keyed_reenter [OF km] by (simp add: es'_def m'_def)
  have keys': "fst ` set m' = fst ` set m"
    by (force simp: m'_def)
  have "\<forall>l \<in> set ls. l_source l \<in> fst ` set m' \<and> l_target l \<in> fst ` set m'"
    by (auto simp: keys' m_def ls_def keys_nodesMap to_link_def)
  then have second: "foldl add_link m' ls = m'"
    by (rule foldl_add_link_present)
  have "nodesMap es' (map link_relationship ls) = m'"
    by (simp only: nodesMap_def to_link_roundtrip first second)
  moreover have "map snd m' = map (\<lambda>n. n\<lparr>n_group := group_of (n_type n)\<rparr>) (map snd m)"
    by (simp add: m'_def comp_def case_prod_beta)
  ultimately have "graphData es' (map link_relationship ls) =
      \<lparr>nodes = map (\<lambda>n. n\<lparr>n_group := group_of (n_type n)\<rparr>) (map snd m), links = ls\<rparr>"
    by (simp only: graphData_def map_values_def to_link_roundtrip)
  then show ?thesis
    by (simp only: g es'_def)
qed

text \<open>
  C7, counterexample: the placeholder for \<open>A\<close> has group 0 in the first graph and is not a
  node of the graph assembled from it.
\<close>

theorem graphData_rerun_changes_group:
  "\<lparr>n_id = ''A'', n_name = ''A'', n_type = Some ''unknown'', n_source = Some ''unknown'',
     n_group = 0\<rparr> \<in> set (nodes (graphData [] [a_to_b])) \<and>
   \<lparr>n_id = ''A'', n_name = ''A'', n_type = Some ''unknown'', n_source = Some ''unknown'',
     n_group = 0\<rparr> \<notin> set (nodes (graphData (map node_entity (nodes (graphData [] [a_to_b])))
      (map link_relationship (links (graphData [] [a_to_b])))))"
  by (simp add: a_to_b_def graphData_def nodesMap_def map_values_def add_entity_def
      map_has_def entity_node_def group_of_def to_link_def add_link_def add_endpoint_def
      placeholder_def node_entity_def link_relationship_def)

section \<open>Properties of the groupings\<close>

lemma entityTypeData_tally: "entityTypeData es = tally (map (\<lambda>e. or_unknown (e_type e)) es)"
  by (simp add: entityTypeData_def tally_def map_entries_def foldl_map)

lemma relationshipTypeData_tally:
  "relationshipTypeData rs = tally (map (\<lambda>r. or_unknown (r_type r)) rs)"
  by (simp add: relationshipTypeData_def tally_def map_entries_def foldl_map)

lemma sourceData_tally: "sourceData es = tally (map (\<lambda>e. or_unknown (e_source e)) es)"
  by (simp add: sourceData_def tally_def map_entries_def foldl_map)

lemma or_zero_eq: "or_zero c = (case c of None \<Rightarrow> 0 | Some n \<Rightarrow> n)"
  by (simp add: or_zero_def split: option.splits)

lemma map_of_map_set: "map_of (map_set m k v) x = (if x = k then Some v else map_of m x)"
  by (induction m) auto

lemma keys_map_set:
  "map fst (map_set m k v) = (if k \<in> fst ` set m then map fst m else map fst m @ [k])"
  by (induction m) force+

lemma map_of_count_in:
  "map_of (count_in m k) x =
     (if x = k then Some (or_zero (map_of m k) + 1) else map_of m x)"
  by (simp add: count_in_def map_of_map_set map_get_def)

lemma map_of_counts:
  "map_of (foldl count_in m ks) x =
     (if x \<in> set ks then Some (or_zero (map_of m x) + count_list ks x) else map_of m x)"
  by (induction ks arbitrary: m) (auto simp: map_of_count_in or_zero_eq)

lemma keys_count_in:
  "map fst (count_in m k) = (if k \<in> fst ` set m then map fst m else map fst m @ [k])"
  by (simp add: count_in_def keys_map_set)

lemma distinct_counts: "distinct (map fst m) \<Longrightarrow> distinct (map fst (foldl count_in m ks))"
  by (induction ks arbitrary: m) (auto simp: keys_count_in)

lemma sum_map_set:
  "sum_list (map snd (map_set m k (Suc (or_zero (map_of m k))))) = Suc (sum_list (map snd m))"
  by (induction m) (auto simp: or_zero_eq)

lemma sum_counts: "sum_list (map snd (foldl count_in m ks)) = sum_list (map snd m) + length ks"
  by (induction ks arbitrary: m) (auto simp: count_in_def map_get_def sum_map_set)

lemma keys_count_in_set: "fst ` set (count_in m k) = insert k (fst ` set m)"
proof -
  have "set (map fst (count_in m k)) = insert k (set (map fst m))"
    by (simp add: keys_count_in insert_absorb)
  then show ?thesis by simp
qed

lemma keys_counts: "fst ` set (foldl count_in m ks) = fst ` set m \<union> set ks"
  by (induction ks arbitrary: m) (simp_all add: keys_count_in_set)

lemma first_seen_snoc_old: "x \<in> set ks \<Longrightarrow> first_seen (ks @ [k]) x = first_seen ks x"
  by (induction ks) (auto simp: first_seen_def)

lemma first_seen_snoc_new: "k \<notin> set ks \<Longrightarrow> first_seen (ks @ [k]) k = length ks"
  by (induction ks) (auto simp: first_seen_def)

lemma first_seen_less: "x \<in> set ks \<Longrightarrow> first_seen ks x < length ks"
  by (induction ks) (auto simp: first_seen_def)

lemma keys_in_first_seen_order:
  "sorted_wrt (\<lambda>a b. first_seen ks a < first_seen ks b) (map fst (foldl count_in [] ks))"
proof (induction ks rule: rev_induct)
  case Nil
  then show ?case by simp
next
  case (snoc k ks)
  let ?m = "foldl count_in [] ks"
  have keys: "fst ` set ?m = set ks"
    by (simp add: keys_counts)
  have old: "sorted_wrt (\<lambda>a b. first_seen (ks @ [k]) a < first_seen (ks @ [k]) b) (map fst ?m)"
    using snoc.IH
    by (rule sorted_wrt_mono_rel [rotated]) (simp add: keys first_seen_snoc_old)
  show ?case
  proof (cases "k \<in> set ks")
    case True
    with old keys show ?thesis
      by (simp add: keys_count_in)
  next
    case False
    have "first_seen (ks @ [k]) x < first_seen (ks @ [k]) k" if "x \<in> set ks" for x
      using that False by (simp add: first_seen_snoc_old first_seen_snoc_new first_seen_less)
    with old keys False show ?thesis
      by (simp add: keys_count_in sorted_wrt_append)
  qed
qed

lemma set_insert_by: "set (insert_by cmp x ys) = insert x (set ys)"
  by (induction ys) auto

lemma set_sort_by: "set (sort_by cmp xs) = set xs"
  by (induction xs) (simp_all add: sort_by_def set_insert_by)

lemma sum_insert_by:
  "sum_list (map f (insert_by cmp x ys)) = (f x :: nat) + sum_list (map f ys)"
  by (induction ys) auto

lemma sum_sort_by: "sum_list (map f (sort_by cmp xs)) = sum_list (map (f :: 'a \<Rightarrow> nat) xs)"
  by (induction xs) (simp_all add: sort_by_def sum_insert_by)

lemma distinct_insert_by:
  "distinct (map f (insert_by cmp x ys)) \<longleftrightarrow> f x \<notin> f ` set ys \<and> distinct (map f ys)"
  by (induction ys) (auto simp: set_insert_by)

lemma distinct_sort_by: "distinct (map f (sort_by cmp xs)) \<longleftrightarrow> distinct (map f xs)"
  by (induction xs) (simp_all add: sort_by_def distinct_insert_by set_sort_by [unfolded sort_by_def])

lemma ranked_insert:
  assumes "sorted_wrt (ranked_before ks) ys"
    and "\<forall>y \<in> set ys. first_seen ks (d_name x) < first_seen ks (d_name y)"
  shows "sorted_wrt (ranked_before ks) (insert_by by_value_desc x ys)"
  using assms
proof (induction ys)
  case Nil
  then show ?case by simp
next
  case (Cons y ys)
  show ?case
  proof (cases "by_value_desc x y \<le> 0")
    case True
    then have xy: "d_value y \<le> d_value x" by (simp add: by_value_desc_def)
    have "ranked_before ks x z" if "z \<in> set (y # ys)" for z
    proof -
      from that Cons.prems(1) have "d_value z \<le> d_value y"
        by (auto simp: ranked_before_def)
      with xy that Cons.prems(2) show ?thesis
        by (auto simp: ranked_before_def)
    qed
    with True Cons.prems(1) show ?thesis by simp
  next
    case False
    then have "ranked_before ks y x" by (simp add: by_value_desc_def ranked_before_def)
    with False Cons show ?thesis by (auto simp: set_insert_by)
  qed
qed

lemma ranked_sort:
  "sorted_wrt (\<lambda>a b. first_seen ks (d_name a) < first_seen ks (d_name b)) xs \<Longrightarrow>
     sorted_wrt (ranked_before ks) (sort_by by_value_desc xs)"
proof (induction xs)
  case Nil
  then show ?case by (simp add: sort_by_def)
next
  case (Cons x xs)
  then have "sorted_wrt (ranked_before ks) (sort_by by_value_desc xs)" by simp
  moreover from Cons.prems
  have "\<forall>y \<in> set (sort_by by_value_desc xs). first_seen ks (d_name x) < first_seen ks (d_name y)"
    by (simp add: set_sort_by)
  ultimately have "sorted_wrt (ranked_before ks) (insert_by by_value_desc x (sort_by by_value_desc xs))"
    by (rule ranked_insert)
  then show ?case by (simp add: sort_by_def)
qed

lemma tally_ranked: "sorted_wrt (ranked_before ks) (tally ks)"
proof -
  have "sorted_wrt (\<lambda>a b. first_seen ks (d_name a) < first_seen ks (d_name b))
      (map to_datum (foldl count_in [] ks))"
    using keys_in_first_seen_order [of ks]
    by (simp add: sorted_wrt_map to_datum_def case_prod_beta)
  then show ?thesis
    unfolding tally_def by (rule ranked_sort)
qed

lemma tally_sum: "sum_list (map d_value (tally ks)) = length ks"
proof -
  have "map d_value (map to_datum m) = map snd m" for m
    by (induction m) (auto simp: to_datum_def)
  then show ?thesis
    using sum_counts [of "[]" ks] by (simp add: tally_def sum_sort_by del: map_map)
qed

lemma tally_distinct: "distinct (map d_name (tally ks))"
proof -
  have "map d_name (map to_datum m) = map fst m" for m
    by (induction m) (auto simp: to_datum_def)
  then show ?thesis
    using distinct_counts [of "[]" ks] by (simp add: tally_def distinct_sort_by del: map_map)
qed

lemma tally_mem:
  "d \<in> set (tally ks) \<longleftrightarrow> d_name d \<in> set ks \<and> d_value d = count_list ks (d_name d)"
proof -
  let ?m = "foldl count_in [] ks"
  have "d \<in> set (tally ks) \<longleftrightarrow> (d_name d, d_value d) \<in> set ?m"
    by (force simp: tally_def set_sort_by to_datum_def)
  also have "\<dots> \<longleftrightarrow> map_of ?m (d_name d) = Some (d_value d)"
    using distinct_counts [of "[]" ks] by simp
  also have "\<dots> \<longleftrightarrow> d_name d \<in> set ks \<and> d_value d = count_list ks (d_name d)"
    by (auto simp: map_of_counts or_zero_eq)
  finally show ?thesis .
qed

lemma filter_key_distinct:
  "distinct (map f xs) \<Longrightarrow> d \<in> set xs \<Longrightarrow> filter (\<lambda>y. f y = f d) xs = [d]"
proof (induction xs)
  case Nil
  then show ?case by simp
next
  case (Cons x xs)
  show ?case
  proof (cases "x = d")
    case True
    with Cons.prems have "f d \<notin> f ` set xs" by simp
    then have "\<forall>y \<in> set xs. f y \<noteq> f d" by (metis imageI)
    then have "filter (\<lambda>y. f y = f d) xs = []" by (simp add: filter_empty_conv)
    with True show ?thesis by simp
  next
    case False
    with Cons.prems have "d \<in> set xs" and "f x \<noteq> f d" by auto
    with Cons show ?thesis by simp
  qed
qed

lemma tally_filter:
  "filter (\<lambda>d. d_name d = k) (tally ks) =
     (if k \<in> set ks then [\<lparr>d_name = k, d_value = count_list ks k\<rparr>] else [])"
proof (cases "k \<in> set ks")
  case True
  let ?d = "\<lparr>d_name = k, d_value = count_list ks k\<rparr>"
  from True have "?d \<in> set (tally ks)" by (simp add: tally_mem)
  with tally_distinct [of ks] have "filter (\<lambda>y. d_name y = d_name ?d) (tally ks) = [?d]"
    by (rule filter_key_distinct)
  with True show ?thesis by simp
next
  case False
  then have "\<forall>d \<in> set (tally ks). d_name d \<noteq> k" by (auto simp: tally_mem)
  with False show ?thesis by (simp add: filter_empty_conv)
qed

lemma count_list_map: "count_list (map g xs) k = length (filter (\<lambda>x. g x = k) xs)"
  by (induction xs) auto

lemma or_unknown_nonempty: "or_unknown v \<noteq> []"
  by (simp add: or_unknown_def split: option.splits)

lemma or_unknown_bucket:
  "or_unknown v = ''unknown'' \<longleftrightarrow> v \<in> {None, Some [], Some ''unknown''}"
  by (auto simp: or_unknown_def split: option.splits)

lemma tally_unknown:
  "filter (\<lambda>d. d_name d = ''unknown'') (tally (map (\<lambda>x. or_unknown (g x)) xs)) =
     (let n = length (filter (\<lambda>x. g x \<in> {None, Some [], Some ''unknown''}) xs)
      in if n = 0 then [] else [\<lparr>d_name = ''unknown'', d_value = n\<rparr>])"
proof -
  let ?ks = "map (\<lambda>x. or_unknown (g x)) xs"
  have n: "count_list ?ks ''unknown'' =
      length (filter (\<lambda>x. g x \<in> {None, Some [], Some ''unknown''}) xs)"
    by (simp only: count_list_map or_unknown_bucket)
  have "''unknown'' \<in> set ?ks \<longleftrightarrow> count_list ?ks ''unknown'' \<noteq> 0"
    by (simp add: count_list_0_iff)
  then show ?thesis
    by (simp only: tally_filter n Let_def) simp
qed

lemma tally_names_nonempty: "\<forall>d \<in> set (tally (map (\<lambda>x. or_unknown (g x)) xs)). d_name d \<noteq> []"
  by (auto simp: tally_mem dest: sym [THEN or_unknown_nonempty [THEN notE]])

lemma tally_set:
  "set (tally (map g xs)) =
     (\<lambda>k. \<lparr>d_name = k, d_value = length (filter (\<lambda>x. g x = k) xs)\<rparr>) ` set (map g xs)"
proof (intro set_eqI iffI)
  fix d assume "d \<in> set (tally (map g xs))"
  then have "d_name d \<in> set (map g xs)"
    and "d_value d = length (filter (\<lambda>x. g x = d_name d) xs)"
    by (simp_all add: tally_mem count_list_map)
  then have "d = \<lparr>d_name = d_name d, d_value = length (filter (\<lambda>x. g x = d_name d) xs)\<rparr>"
    by simp
  with \<open>d_name d \<in> set (map g xs)\<close>
  show "d \<in> (\<lambda>k. \<lparr>d_name = k, d_value = length (filter (\<lambda>x. g x = k) xs)\<rparr>) ` set (map g xs)"
    by (rule rev_image_eqI)
next
  fix d
  assume "d \<in> (\<lambda>k. \<lparr>d_name = k, d_value = length (filter (\<lambda>x. g x = k) xs)\<rparr>) ` set (map g xs)"
  then obtain k where "k \<in> set (map g xs)"
    and "d = \<lparr>d_name = k, d_value = length (filter (\<lambda>x. g x = k) xs)\<rparr>"
    by blast
  then show "d \<in> set (tally (map g xs))"
    by (simp add: tally_mem count_list_map)
qed

lemma ranked_unique:
  assumes "sorted_wrt (ranked_before ks) xs" and "sorted_wrt (ranked_before ks) ys"
    and "distinct (map d_name xs)" and "distinct (map d_name ys)" and "set xs = set ys"
  shows "xs = ys"
proof -
  have irrefl: "\<not> ranked_before ks a a" for a
    by (simp add: ranked_before_def)
  have asym: "ranked_before ks a b \<Longrightarrow> \<not> ranked_before ks b a" for a b
    by (auto simp: ranked_before_def)
  from assms(3) have dx: "distinct xs" by (simp add: distinct_map)
  from assms(4) have dy: "distinct ys" by (simp add: distinct_map)
  from assms(1,2,5) dx dy show ?thesis
  proof (induction xs arbitrary: ys)
    case Nil
    then show ?case by simp
  next
    case (Cons x xs)
    then obtain y ys' where ys: "ys = y # ys'" by (cases ys) auto
    have "x = y"
    proof (rule ccontr)
      assume ne: "x \<noteq> y"
      with Cons.prems(3) ys have "y \<in> set xs" and "x \<in> set ys'" by auto
      with Cons.prems(1,2) ys have "ranked_before ks x y" and "ranked_before ks y x" by auto
      with asym show False by blast
    qed
    moreover from Cons.prems ys \<open>x = y\<close> have "set xs = set ys'"
      by auto
    moreover from Cons.prems ys have "sorted_wrt (ranked_before ks) xs"
      "sorted_wrt (ranked_before ks) ys'" "distinct xs" "distinct ys'" by auto
    ultimately show ?case using Cons.IH [of ys'] ys by simp
  qed
qed

text \<open>
  Claim C4. Each of the three groupings holds every discriminator read from the input
  exactly once, with the number of elements that have it, and is returned in ranking
  order: every element stands before every later one either by a strictly larger count
  or, at equal counts, by a discriminator first seen earlier in the input. By
  \<open>ranked_unique\<close> these properties leave one list only, so the result is determined
  by the input.
\<close>

theorem chart_data_ranked:
  "sorted_wrt (ranked_before (map (\<lambda>e. or_unknown (e_type e)) es)) (entityTypeData es) \<and>
   distinct (map d_name (entityTypeData es)) \<and>
   set (entityTypeData es) =
     (\<lambda>k. \<lparr>d_name = k, d_value = length (filter (\<lambda>e. or_unknown (e_type e) = k) es)\<rparr>) `
       set (map (\<lambda>e. or_unknown (e_type e)) es) \<and>
   sorted_wrt (ranked_before (map (\<lambda>r. or_unknown (r_type r)) rs)) (relationshipTypeData rs) \<and>
   distinct (map d_name (relationshipTypeData rs)) \<and>
   set (relationshipTypeData rs) =
     (\<lambda>k. \<lparr>d_name = k, d_value = length (filter (\<lambda>r. or_unknown (r_type r) = k) rs)\<rparr>) `
       set (map (\<lambda>r. or_unknown (r_type r)) rs) \<and>
   sorted_wrt (ranked_before (map (\<lambda>e. or_unknown (e_source e)) es)) (sourceData es) \<and>
   distinct (map d_name (sourceData es)) \<and>
   set (sourceData es) =
     (\<lambda>k. \<lparr>d_name = k, d_value = length (filter (\<lambda>e. or_unknown (e_source e) = k) es)\<rparr>) `
       set (map (\<lambda>e. or_unknown (e_source e)) es)"
  unfolding entityTypeData_tally relationshipTypeData_tally sourceData_tally
  by (intro conjI tally_ranked tally_distinct tally_set)

text \<open>
  C4, witness: five entities of types officer, company, absent, company, empty, and
  three relationships. \<open>company\<close> and \<open>unknown\<close> tie at 2, and \<open>company\<close> was seen
  first.
\<close>

theorem chart_data_ranked_witness:
  "entityTypeData sample_entities =
     [\<lparr>d_name = ''company'', d_value = 2\<rparr>, \<lparr>d_name = ''unknown'', d_value = 2\<rparr>,
      \<lparr>d_name = ''officer'', d_value = 1\<rparr>] \<and>
   relationshipTypeData sample_relationships =
     [\<lparr>d_name = ''officer_of'', d_value = 2\<rparr>, \<lparr>d_name = ''unknown'', d_value = 1\<rparr>] \<and>
   sourceData sample_entities =
     [\<lparr>d_name = ''sugartrail'', d_value = 2\<rparr>, \<lparr>d_name = ''unknown'', d_value = 2\<rparr>,
      \<lparr>d_name = ''EDGAR'', d_value = 1\<rparr>] \<and>
   sorted_wrt (ranked_before (map (\<lambda>e. or_unknown (e_type e)) sample_entities))
     (entityTypeData sample_entities) \<and>
   distinct (map d_name (sourceData sample_entities))"
  using chart_data_ranked [of sample_entities sample_relationships]
  by (simp add: sample_entities_def sample_relationships_def entityTypeData_def
      relationshipTypeData_def sourceData_def or_unknown_def count_in_def map_get_def
      or_zero_def map_entries_def to_datum_def sort_by_def by_value_desc_def)

text \<open>
  Claim C5. The counts of the grouping by entity type and of the grouping by source
  sum to the number of entities, the counts of the grouping by relationship type sum to
  the number of relationships, and the summary holds the two lengths.
\<close>

theorem chart_counts_sum:
  "sum_list (map d_value (entityTypeData es)) = length es \<and>
   sum_list (map d_value (sourceData es)) = length es \<and>
   sum_list (map d_value (relationshipTypeData rs)) = length rs \<and>
   total_entities (summarize es rs) = length es \<and>
   total_relationships (summarize es rs) = length rs"
  by (simp add: entityTypeData_tally relationshipTypeData_tally sourceData_tally tally_sum
      summarize_def)

text \<open>
  C5, witness: five entities and three relationships.
\<close>

theorem chart_counts_sum_witness:
  "sum_list (map d_value (entityTypeData sample_entities)) = 5 \<and>
   sum_list (map d_value (sourceData sample_entities)) = 5 \<and>
   sum_list (map d_value (relationshipTypeData sample_relationships)) = 3"
  using chart_counts_sum [of sample_entities sample_relationships]
  by (simp add: sample_entities_def sample_relationships_def)

text \<open>
  Claim C8. No grouping emits an empty discriminator, and the one bucket
  \<open>unknown\<close> of each grouping counts exactly the elements whose discriminator is absent,
  empty or literally \<open>unknown\<close>.
\<close>

theorem chart_unknown_bucket:
  "(\<forall>d \<in> set (entityTypeData es). d_name d \<noteq> []) \<and>
   (\<forall>d \<in> set (relationshipTypeData rs). d_name d \<noteq> []) \<and>
   (\<forall>d \<in> set (sourceData es). d_name d \<noteq> []) \<and>
   filter (\<lambda>d. d_name d = ''unknown'') (entityTypeData es) =
     (let n = length (filter (\<lambda>e. e_type e \<in> {None, Some [], Some ''unknown''}) es)
      in if n = 0 then [] else [\<lparr>d_name = ''unknown'', d_value = n\<rparr>]) \<and>
   filter (\<lambda>d. d_name d = ''unknown'') (relationshipTypeData rs) =
     (let n = length (filter (\<lambda>r. r_type r \<in> {None, Some [], Some ''unknown''}) rs)
      in if n = 0 then [] else [\<lparr>d_name = ''unknown'', d_value = n\<rparr>]) \<and>
   filter (\<lambda>d. d_name d = ''unknown'') (sourceData es) =
     (let n = length (filter (\<lambda>e. e_source e \<in> {None, Some [], Some ''unknown''}) es)
      in if n = 0 then [] else [\<lparr>d_name = ''unknown'', d_value = n\<rparr>])"
  unfolding entityTypeData_tally relationshipTypeData_tally sourceData_tally
  by (intro conjI tally_names_nonempty tally_unknown)

text \<open>
  C8, witness: an absent and an empty type, an empty and an absent source, an absent
  relationship type.
\<close>

theorem chart_unknown_bucket_witness:
  "sourceData sample_entities =
     [\<lparr>d_name = ''sugartrail'', d_value = 2\<rparr>, \<lparr>d_name = ''unknown'', d_value = 2\<rparr>,
      \<lparr>d_name = ''EDGAR'', d_value = 1\<rparr>] \<and>
   filter (\<lambda>d. d_name d = ''unknown'') (entityTypeData sample_entities) =
     [\<lparr>d_name = ''unknown'', d_value = 2\<rparr>] \<and>
   filter (\<lambda>d. d_name d = ''unknown'') (relationshipTypeData sample_relationships) =
     [\<lparr>d_name = ''unknown'', d_value = 1\<rparr>]"
  using chart_unknown_bucket [of sample_entities sample_relationships]
  by (simp add: sample_entities_def sample_relationships_def sourceData_def or_unknown_def
      count_in_def map_get_def or_zero_def map_entries_def to_datum_def sort_by_def
      by_value_desc_def)

section \<open>Properties of the analyze endpoint\<close>

lemma fields_of_body:
  "body \<noteq> JNull \<Longrightarrow>
     destructure body =
       Inr \<lparr>company = body_field body ''company'', country = body_field body ''country'',
            website = body_field body ''website'', officer = body_field body ''officer''\<rparr>"
  by (cases body) (simp_all add: destructure_def)

lemma status_catch_error: "status (catch_error err) = 500"
  by (simp add: catch_error_def json_response_def Let_def)

lemma output_match_examples:
  "output_match (units ''Saved to data/output/acme_2024.json done'') = Some (units ''acme_2024.json'')"
  "output_match (units ''Saved to data/output/a.json.json.bak x'') = Some (units ''a.json.json'')"
  "output_match (units ''data/output/.json and data/output/x.jsonl'') = Some (units ''x.json'')"
  "output_match (units ''data/output/a'' @ [0x3000] @ units ''b.json'') = None"
  "output_match (units ''data/output/a.json'' @ [0x00A0] @ units ''b.json'') = Some (units ''a.json'')"
  "output_match (units ''no sources produced any entities'') = None"
  by (simp_all add: capture_def is_space_def units_def)

lemma command_of_strings:
  assumes "company f = Some (JStr c)" and "country f = Some (JStr k)"
    and "website f = None" and "officer f = None"
  shows "command_of e dir script f =
           Inr (units ''cd '' @ quoted dir @ units '' && uv run python '' @ units script @
                units '' --company '' @ quoted c @ units '' --country '' @ k)"
  using assms by (simp add: command_of_def template_def append_option_def)

text \<open>
  A conversion that throws while the command line is built ends the request in the
  catch block, before any subprocess runs.
\<close>

lemma POST_conversion_throws:
  assumes "request_json e = Inr body" and "destructure body = Inr f"
    and "truthy (company f)" and "truthy (country f)"
    and "command_of e (cwd e) ''src/backend/integrated_analysis.py'' f = Inl err"
  shows "POST e = (catch_error err, [])"
  using assms by (simp add: POST_def Let_def)

lemma POST_poisoned_company:
  "POST (example_env poisoned (Inr ([], []))) =
     (\<lparr>status = 500, b_success = Some False,
       b_error = Some (units ''Cannot convert object to primitive value''), b_data = None,
       b_output = None, b_stderr = None, b_warning = None, b_details = None\<rparr>, [])"
  by (simp add: POST_def example_env_def poisoned_def destructure_def body_field_def
      command_of_def template_def catch_error_def json_response_def units_def Let_def)

text \<open>
  Claim C9, as amended. For a request that passes validation and whose command line
  is built, a run that ends normally and whose output has no match for the handler's
  pattern is answered as a success: status 200, \<open>success\<close> true, \<open>data\<close> null, the
  output, and the "result file was not found" message as a warning. A terminal failure
  (status 500, \<open>success\<close> false, the error's message) is the answer when the subprocess
  call itself is rejected.
\<close>

theorem POST_no_result_file:
  assumes "request_json e = Inr body" and "destructure body = Inr f"
    and "truthy (company f)" and "truthy (country f)"
    and "command_of e (cwd e) ''src/backend/integrated_analysis.py'' f = Inr command"
  shows "(\<forall>stdout err.
            exec e command = Inr (stdout, err) \<and> output_match stdout = None \<longrightarrow>
            POST e =
              (\<lparr>status = 200, b_success = Some True, b_error = None, b_data = Some JNull,
                b_output = Some stdout, b_stderr = (if err = [] then None else Some err),
                b_warning = Some not_found_message, b_details = None\<rparr>,
               [Exec command])) \<and>
         (\<forall>message err.
            exec e command = Inl (ErrorObj message err) \<longrightarrow>
            POST e =
              (\<lparr>status = 500, b_success = Some False, b_error = Some message, b_data = None,
                b_output = None, b_stderr = None, b_warning = None, b_details = err\<rparr>,
               [Exec command]))"
  using assms
  by (auto simp: POST_def Let_def json_response_def catch_error_def or_undefined_def)

text \<open>
  C9, witness: a run that prints only a remark, and a run whose command fails.
\<close>

theorem POST_no_result_file_witness:
  "POST (example_env acme_us (Inr (units ''No entities were produced'', []))) =
     (\<lparr>status = 200, b_success = Some True, b_error = None, b_data = Some JNull,
       b_output = Some (units ''No entities were produced''), b_stderr = None,
       b_warning = Some not_found_message, b_details = None\<rparr>,
      [Exec acme_us_command]) \<and>
   POST (example_env acme_us (Inl (ErrorObj (units ''Command failed'') (Some (units ''Traceback''))))) =
     (\<lparr>status = 500, b_success = Some False, b_error = Some (units ''Command failed''),
       b_data = None, b_output = None, b_stderr = None, b_warning = None,
       b_details = Some (units ''Traceback'')\<rparr>,
      [Exec acme_us_command])"
proof -
  let ?f = "\<lparr>company = Some (JStr (units ''Acme'')), country = Some (JStr (units ''us'')),
             website = None, officer = None\<rparr>"
  have d: "destructure acme_us = Inr ?f"
    by (simp add: acme_us_def destructure_def body_field_def units_def)
  have c: "command_of (example_env acme_us outcome) (cwd (example_env acme_us outcome))
      ''src/backend/integrated_analysis.py'' ?f = Inr acme_us_command" for outcome
    by (simp add: command_of_strings example_env_def acme_us_command_def units_def)
  have n: "output_match (units ''No entities were produced'') = None"
    by (simp add: capture_def is_space_def units_def)
  have r: "request_json (example_env acme_us outcome) = Inr acme_us"
    and x: "exec (example_env acme_us outcome) acme_us_command = outcome" for outcome
    by (simp_all add: example_env_def)
  show ?thesis
    using POST_no_result_file [OF r d _ _ c, of "Inr (units ''No entities were produced'', [])"]
      POST_no_result_file [OF r d _ _ c,
        of "Inl (ErrorObj (units ''Command failed'') (Some (units ''Traceback'')))"]
    by (simp add: x n units_def)
qed

text \<open>
  C9, counterexample: the output of the run names no result file, and the answer is a
  success with no error field.
\<close>

theorem POST_no_result_file_is_success:
  "output_match (units ''No entities were produced'') = None \<and>
   status (fst (POST (example_env acme_us (Inr (units ''No entities were produced'', []))))) = 200 \<and>
   b_success (fst (POST (example_env acme_us (Inr (units ''No entities were produced'', []))))) = Some True \<and>
   b_data (fst (POST (example_env acme_us (Inr (units ''No entities were produced'', []))))) = Some JNull \<and>
   b_error (fst (POST (example_env acme_us (Inr (units ''No entities were produced'', []))))) = None"
  by (simp add: POST_def example_env_def acme_us_def destructure_def body_field_def
      command_of_def template_def append_option_def capture_def is_space_def
      json_response_def units_def Let_def)

text \<open>
  The validation that claim C10 describes, on every parsed body other than null: if
  \<open>company\<close> or \<open>country\<close> is missing or falsy, both handlers answer status 400 with
  the "company name and country are required" message and run nothing; if both are
  truthy, neither handler answers 400.
\<close>

lemma POST_validation:
  assumes "request_json e = Inr body"
  shows "(body \<noteq> JNull \<and>
            (\<not> truthy (body_field body ''company'') \<or> \<not> truthy (body_field body ''country'')) \<longrightarrow>
          POST e =
            (\<lparr>status = 400, b_success = None, b_error = Some required_message, b_data = None,
              b_output = None, b_stderr = None, b_warning = None, b_details = None\<rparr>, []) \<and>
          POST_frontend e =
            (\<lparr>status = 400, b_success = None, b_error = Some required_message, b_data = None,
              b_output = None, b_stderr = None, b_warning = None, b_details = None\<rparr>, [])) \<and>
         (truthy (body_field body ''company'') \<and> truthy (body_field body ''country'') \<longrightarrow>
          status (fst (POST e)) \<noteq> 400 \<and> status (fst (POST_frontend e)) \<noteq> 400)"
proof (intro conjI impI)
  assume bad: "body \<noteq> JNull \<and>
      (\<not> truthy (body_field body ''company'') \<or> \<not> truthy (body_field body ''country''))"
  then have f: "destructure body =
       Inr \<lparr>company = body_field body ''company'', country = body_field body ''country'',
            website = body_field body ''website'', officer = body_field body ''officer''\<rparr>"
    by (simp add: fields_of_body)
  from bad show "POST e =
      (\<lparr>status = 400, b_success = None, b_error = Some required_message, b_data = None,
        b_output = None, b_stderr = None, b_warning = None, b_details = None\<rparr>, [])"
    by (auto simp: POST_def assms f bad_request_def json_response_def)
  from bad show "POST_frontend e =
      (\<lparr>status = 400, b_success = None, b_error = Some required_message, b_data = None,
        b_output = None, b_stderr = None, b_warning = None, b_details = None\<rparr>, [])"
    by (auto simp: POST_frontend_def assms f bad_request_def json_response_def)
next
  assume ok: "truthy (body_field body ''company'') \<and> truthy (body_field body ''country'')"
  then have "body \<noteq> JNull"
    by (auto simp: body_field_def)
  then have f: "destructure body =
       Inr \<lparr>company = body_field body ''company'', country = body_field body ''country'',
            website = body_field body ''website'', officer = body_field body ''officer''\<rparr>"
    by (rule fields_of_body)
  from ok show "status (fst (POST e)) \<noteq> 400"
    by (auto simp: POST_def assms f Let_def status_catch_error json_response_def
        split: sum.splits option.splits prod.splits)
  from ok show "status (fst (POST_frontend e)) \<noteq> 400"
    by (auto simp: POST_frontend_def assms f Let_def status_catch_error json_response_def
        split: sum.splits option.splits prod.splits)
qed

lemma POST_validation_examples:
  "POST (example_env only_country (Inr ([], []))) =
     (\<lparr>status = 400, b_success = None, b_error = Some required_message, b_data = None,
       b_output = None, b_stderr = None, b_warning = None, b_details = None\<rparr>, []) \<and>
   POST_frontend (example_env only_country (Inr ([], []))) =
     (\<lparr>status = 400, b_success = None, b_error = Some required_message, b_data = None,
       b_output = None, b_stderr = None, b_warning = None, b_details = None\<rparr>, []) \<and>
   status (fst (POST (example_env acme_us (Inr ([], []))))) \<noteq> 400 \<and>
   status (fst (POST_frontend (example_env acme_us (Inr ([], []))))) \<noteq> 400"
proof -
  have r: "request_json (example_env body outcome) = Inr body" for body outcome
    by (simp add: example_env_def)
  show ?thesis
    using POST_validation [OF r, of only_country "Inr ([], [])"]
      POST_validation [OF r, of acme_us "Inr ([], [])"]
    by (simp add: only_country_def acme_us_def body_field_def units_def)
qed

text \<open>
  Claim C10, at the input where the code departs from it. The body null has no
  \<open>company\<close> field, yet both handlers answer it with status 500 and the engine's
  TypeError message, since the destructuring throws before the check; the bodies
  \<^verbatim>\<open>{}\<close> and \<^verbatim>\<open>[]\<close>, which also lack the field, get the 400 of the claim.
\<close>

theorem POST_null_body_is_500:
  "body_field JNull ''company'' = None \<and>
   POST (example_env JNull (Inr ([], []))) =
     (\<lparr>status = 500, b_success = Some False, b_error = Some destructure_null_message,
       b_data = None, b_output = None, b_stderr = None, b_warning = None, b_details = None\<rparr>,
      []) \<and>
   POST_frontend (example_env JNull (Inr ([], []))) =
     (\<lparr>status = 500, b_success = Some False, b_error = Some destructure_null_message,
       b_data = None, b_output = None, b_stderr = None, b_warning = None, b_details = None\<rparr>,
      []) \<and>
   POST (example_env (JObj []) (Inr ([], []))) =
     (\<lparr>status = 400, b_success = None, b_error = Some required_message, b_data = None,
       b_output = None, b_stderr = None, b_warning = None, b_details = None\<rparr>, []) \<and>
   POST (example_env (JArr []) (Inr ([], []))) =
     (\<lparr>status = 400, b_success = None, b_error = Some required_message, b_data = None,
       b_output = None, b_stderr = None, b_warning = None, b_details = None\<rparr>, [])"
  by (simp add: body_field_def POST_def POST_frontend_def example_env_def destructure_def
      catch_error_def bad_request_def json_response_def Let_def)

text \<open>
  C10, witness: at the body null the status of both answers is 500, where the claim says
  400.
\<close>

theorem POST_null_body_status:
  "status (fst (POST (example_env JNull (Inr ([], []))))) = 500 \<and>
   status (fst (POST_frontend (example_env JNull (Inr ([], []))))) = 500 \<and>
   snd (POST (example_env JNull (Inr ([], [])))) = [] \<and>
   snd (POST_frontend (example_env JNull (Inr ([], [])))) = []"
  using POST_null_body_is_500 by simp

end
